theory Spec2Isabelle
  imports Main
begin

section \<open>Data model of backend/main.py\<close>

text \<open>
  Times are \<^verbatim>\<open>datetime\<close> values with microsecond resolution; they are modelled as the
  number of microseconds since the epoch. A \<^verbatim>\<open>timedelta\<close> is a number of microseconds.
  Strings are lists of characters, restricted to ASCII.

  Each handler is a function of the store and of everything else it reads: its arguments,
  the clock readings it takes, the random draws, and the outcome of the mail transport. It
  returns the response or the \<^verbatim>\<open>HTTPException\<close> it raises, and the store it leaves.
  Every operation on the store succeeds: the handlers' \<^verbatim>\<open>except Exception\<close> branches for a
  failing driver are not modelled, and neither is the TTL index on \<^verbatim>\<open>expires_at\<close>, by which
  the database removes expired OTP records on its own at times of its choosing.
\<close>

type_synonym datetime = int

definition timedelta_hours :: "int \<Rightarrow> int" where
  "timedelta_hours h = h * 3600000000"

definition timedelta_minutes :: "int \<Rightarrow> int" where
  "timedelta_minutes m = m * 60000000"

text \<open>
  An \<^verbatim>\<open>ObjectId\<close> is a 12-byte value, written as 24 hexadecimal digits; it is modelled
  as the natural number those digits denote.
\<close>

type_synonym object_id = nat

text \<open>
  The \<^verbatim>\<open>User\<close> document as \<^verbatim>\<open>User.from_dict\<close> reads it: a missing email is
  \<open>None\<close>, a missing \<^verbatim>\<open>is_verified\<close> or \<^verbatim>\<open>is_admin\<close> is \<open>False\<close>.
\<close>

record user =
  user_id :: object_id
  username :: string
  email :: "string option"
  password_hash :: string
  is_verified :: bool
  created_at :: datetime
  is_admin :: bool

text \<open>The \<^verbatim>\<open>OTP\<close> document.\<close>

record otp =
  otp_id :: object_id
  otp_email :: string
  otp_code :: string
  is_used :: bool
  expires_at :: datetime
  otp_created_at :: datetime

text \<open>
  The database: the two collections in their natural (insertion) order, and the next
  identifier the driver hands out on \<^verbatim>\<open>insert_one\<close>.
\<close>

record db =
  users :: "user list"
  otps :: "otp list"
  next_oid :: object_id

text \<open>\<^verbatim>\<open>HTTPException(status_code, detail)\<close>.\<close>

datatype http_exception = HTTPException nat string

subsection \<open>Collection operations of the driver\<close>

definition find_one :: "('a \<Rightarrow> bool) \<Rightarrow> 'a list \<Rightarrow> 'a option" where
  "find_one q docs = List.find q docs"

fun delete_one :: "('a \<Rightarrow> bool) \<Rightarrow> 'a list \<Rightarrow> 'a list" where
  "delete_one q [] = []"
| "delete_one q (d # docs) = (if q d then docs else d # delete_one q docs)"

definition delete_many :: "('a \<Rightarrow> bool) \<Rightarrow> 'a list \<Rightarrow> 'a list" where
  "delete_many q docs = filter (\<lambda>d. \<not> q d) docs"

definition count_documents :: "('a \<Rightarrow> bool) \<Rightarrow> 'a list \<Rightarrow> nat" where
  "count_documents q docs = length (filter q docs)"

fun update_one :: "('a \<Rightarrow> bool) \<Rightarrow> ('a \<Rightarrow> 'a) \<Rightarrow> 'a list \<Rightarrow> 'a list" where
  "update_one q f [] = []"
| "update_one q f (d # docs) = (if q d then f d # docs else d # update_one q f docs)"

text \<open>\<^verbatim>\<open>db.otps.insert_one(doc)\<close>: the document gets a fresh \<^verbatim>\<open>_id\<close> and is appended.\<close>

definition insert_otp :: "db \<Rightarrow> string \<Rightarrow> string \<Rightarrow> bool \<Rightarrow> datetime \<Rightarrow> datetime \<Rightarrow> db" where
  "insert_otp d mail code used exp created =
     d\<lparr>otps := otps d @ [\<lparr>otp_id = next_oid d, otp_email = mail, otp_code = code,
                            is_used = used, expires_at = exp, otp_created_at = created\<rparr>],
       next_oid := Suc (next_oid d)\<rparr>"

section \<open>OTP utilities\<close>

text \<open>
  \<^verbatim>\<open>generate_otp\<close>: \<^verbatim>\<open>''.join(random.choices(string.digits, k=6))\<close>. The random source
  is an input: draw \<open>i\<close> of the stream selects the digit at index \<open>rnd i mod 10\<close>.
\<close>

definition string_digits :: string where
  "string_digits = ''0123456789''"

definition generate_otp :: "(nat \<Rightarrow> nat) \<Rightarrow> string" where
  "generate_otp rnd = map (\<lambda>i. string_digits ! (rnd i mod 10)) [0..<6]"

text \<open>\<^verbatim>\<open>is_otp_expired\<close>: \<^verbatim>\<open>datetime.utcnow() > expires_at\<close>; the clock reading is an input.\<close>

definition is_otp_expired :: "datetime \<Rightarrow> datetime \<Rightarrow> bool" where
  "is_otp_expired now exp = (now > exp)"

text \<open>\<^verbatim>\<open>cleanup_expired_otps\<close>: \<^verbatim>\<open>delete_many({"expires_at": {"$lt": now}})\<close>.\<close>

definition cleanup_expired_otps :: "db \<Rightarrow> datetime \<Rightarrow> db" where
  "cleanup_expired_otps d now = d\<lparr>otps := delete_many (\<lambda>r. expires_at r < now) (otps d)\<rparr>"

section \<open>OTP endpoints\<close>

record otp_response =
  resp_message :: string
  resp_email :: string
  resp_otp_code :: "string option"
  resp_expires_in_minutes :: nat

text \<open>
  \<^verbatim>\<open>send_otp\<close>. The four clock readings of the handler are inputs, in the order they are taken:
  for the rate limit, for the sweep, for the expiry and for the creation stamp. Whether the
  mail transport delivered is an input too.
\<close>

definition send_otp ::
  "db \<Rightarrow> string \<Rightarrow> datetime \<Rightarrow> datetime \<Rightarrow> datetime \<Rightarrow> datetime \<Rightarrow> (nat \<Rightarrow> nat) \<Rightarrow> bool
     \<Rightarrow> (http_exception + otp_response) \<times> db" where
  "send_otp d mail t_limit t_sweep t_exp t_created rnd email_sent =
     (let one_hour_ago = t_limit - timedelta_hours 1;
          recent_otps = count_documents
            (\<lambda>r. otp_email r = mail \<and> one_hour_ago \<le> otp_created_at r) (otps d)
      in if recent_otps \<ge> 5 then
           (Inl (HTTPException 429
              ''Too many OTP requests. Please wait before requesting another OTP.''), d)
         else if find_one (\<lambda>u. email u = Some mail) (users d) \<noteq> None then
           (Inl (HTTPException 400 ''Email already registered''), d)
         else
           let d1 = cleanup_expired_otps d t_sweep;
               code = generate_otp rnd;
               exp = t_exp + timedelta_minutes 10;
               d2 = insert_otp d1 mail code False exp t_created
           in if email_sent then
                (Inr \<lparr>resp_message = ''OTP sent successfully via email'', resp_email = mail,
                      resp_otp_code = None, resp_expires_in_minutes = 10\<rparr>, d2)
              else
                (Inr \<lparr>resp_message = ''OTP sent successfully (email failed, check server logs)'',
                      resp_email = mail, resp_otp_code = Some code,
                      resp_expires_in_minutes = 10\<rparr>, d2))"

record verify_response =
  vresp_message :: string
  vresp_email :: string
  vresp_verified :: bool

text \<open>\<^verbatim>\<open>verify_otp\<close>.\<close>

definition verify_otp ::
  "db \<Rightarrow> string \<Rightarrow> string \<Rightarrow> datetime \<Rightarrow> (http_exception + verify_response) \<times> db" where
  "verify_otp d mail code now =
     (case find_one (\<lambda>r. otp_email r = mail \<and> otp_code r = code \<and> is_used r = False) (otps d) of
        None \<Rightarrow> (Inl (HTTPException 400 ''Invalid OTP''), d)
      | Some otp_record \<Rightarrow>
          if is_otp_expired now (expires_at otp_record) then
            (Inl (HTTPException 400 ''OTP has expired''), d)
          else
            (Inr \<lparr>vresp_message = ''OTP verified successfully'', vresp_email = mail,
                  vresp_verified = True\<rparr>,
             d\<lparr>otps := update_one (\<lambda>r. otp_id r = otp_id otp_record)
                          (\<lambda>r. r\<lparr>is_used := True\<rparr>) (otps d)\<rparr>))"

text \<open>
  \<^verbatim>\<open>db.users.insert_one(doc)\<close> under the unique indexes on \<^verbatim>\<open>username\<close> and \<^verbatim>\<open>email\<close>
  that \<^verbatim>\<open>create_indexes\<close> sets up: the driver raises \<^verbatim>\<open>DuplicateKeyError\<close> when either is
  taken, and otherwise appends the document under a fresh \<^verbatim>\<open>_id\<close>, which it returns.
\<close>

datatype driver_error = DuplicateKeyError

definition insert_user ::
  "db \<Rightarrow> string \<Rightarrow> string \<Rightarrow> string \<Rightarrow> bool \<Rightarrow> datetime \<Rightarrow> bool \<Rightarrow> driver_error + object_id \<times> db" where
  "insert_user d uname mail pwhash verified created admin =
     (if list_ex (\<lambda>u. username u = uname \<or> email u = Some mail) (users d) then
        Inl DuplicateKeyError
      else
        Inr (next_oid d,
             d\<lparr>users := users d @ [\<lparr>user_id = next_oid d, username = uname, email = Some mail,
                                      password_hash = pwhash, is_verified = verified,
                                      created_at = created, is_admin = admin\<rparr>],
               next_oid := Suc (next_oid d)\<rparr>))"

record register_response =
  rresp_message :: string
  rresp_id :: object_id
  rresp_username :: string
  rresp_email :: string
  rresp_is_verified :: bool

text \<open>
  \<^verbatim>\<open>register\<close>. The password hashing primitive is a parameter (\<^verbatim>\<open>hash_password\<close> salts, so
  the function stands for one call of it).
\<close>

definition register ::
  "(string \<Rightarrow> string) \<Rightarrow> db \<Rightarrow> string \<Rightarrow> string \<Rightarrow> string \<Rightarrow> datetime
     \<Rightarrow> (http_exception + register_response) \<times> db" where
  "register hash_password d uname mail password t_created =
     (if find_one (\<lambda>u. username u = uname) (users d) \<noteq> None then
        (Inl (HTTPException 400 ''Username already exists''), d)
      else if find_one (\<lambda>u. email u = Some mail) (users d) \<noteq> None then
        (Inl (HTTPException 400 ''Email already registered''), d)
      else
        case find_one (\<lambda>r. otp_email r = mail \<and> is_used r = True) (otps d) of
          None \<Rightarrow>
            (Inl (HTTPException 400
               ''Email not verified. Please verify your email with OTP first.''), d)
        | Some verified_otp \<Rightarrow>
            (case insert_user d uname mail (hash_password password) True t_created False of
               Inl DuplicateKeyError \<Rightarrow>
                 (Inl (HTTPException 400 ''Username or email already exists''), d)
             | Inr (inserted_id, d1) \<Rightarrow>
                 (Inr \<lparr>rresp_message = ''User registered successfully'', rresp_id = inserted_id,
                       rresp_username = uname, rresp_email = mail, rresp_is_verified = True\<rparr>,
                  d1\<lparr>otps := delete_one (\<lambda>r. otp_id r = otp_id verified_otp) (otps d1)\<rparr>)))"


section \<open>Login\<close>

text \<open>
  The signed token is modelled by its payload. \<^verbatim>\<open>ACCESS_TOKEN_EXPIRE_MINUTES\<close> is read from
  the environment, with default 60.
\<close>

record access_token =
  token_sub :: string
  token_exp :: datetime

definition ACCESS_TOKEN_EXPIRE_MINUTES :: int where
  "ACCESS_TOKEN_EXPIRE_MINUTES = 60"

definition create_access_token :: "string \<Rightarrow> datetime \<Rightarrow> access_token" where
  "create_access_token subject now =
     \<lparr>token_sub = subject, token_exp = now + timedelta_minutes ACCESS_TOKEN_EXPIRE_MINUTES\<rparr>"

record login_response =
  lresp_access_token :: access_token
  lresp_token_type :: string

text \<open>
  The backfill of a legacy account, \<^verbatim>\<open>update_one({"_id": id}, {"$set": {"email": ...,
  "is_verified": True}})\<close>, under the unique index on \<^verbatim>\<open>email\<close>.
\<close>

definition set_legacy_email :: "db \<Rightarrow> object_id \<Rightarrow> string \<Rightarrow> driver_error + db" where
  "set_legacy_email d uid mail =
     (if list_ex (\<lambda>u. user_id u \<noteq> uid \<and> email u = Some mail) (users d) then
        Inl DuplicateKeyError
      else
        Inr (d\<lparr>users := update_one (\<lambda>u. user_id u = uid)
                            (\<lambda>u. u\<lparr>email := Some mail, is_verified := True\<rparr>) (users d)\<rparr>))"

text \<open>
  \<^verbatim>\<open>login\<close>. The password verification primitive is a parameter. A failed backfill is
  logged and login continues with the user as read.
\<close>

definition login ::
  "(string \<Rightarrow> string \<Rightarrow> bool) \<Rightarrow> db \<Rightarrow> string \<Rightarrow> string \<Rightarrow> datetime
     \<Rightarrow> (http_exception + login_response) \<times> db" where
  "login verify_password d uname password t_token =
     (case find_one (\<lambda>u. username u = uname) (users d) of
        None \<Rightarrow> (Inl (HTTPException 401 ''Invalid credentials''), d)
      | Some usr \<Rightarrow>
          if \<not> verify_password password (password_hash usr) then
            (Inl (HTTPException 401 ''Invalid credentials''), d)
          else
            let (usr1, d1) =
                  (if email usr = None \<or> email usr = Some [] then
                     (case set_legacy_email d (user_id usr) (username usr @ ''@legacy.local'') of
                        Inl e \<Rightarrow> (usr, d)
                      | Inr d' \<Rightarrow>
                          (usr\<lparr>email := Some (username usr @ ''@legacy.local''),
                               is_verified := True\<rparr>, d'))
                   else (usr, d))
            in if \<not> is_verified usr1 then
                 (Inl (HTTPException 401
                    ''Email not verified. Please verify your email with OTP first.''), d1)
               else
                 (Inr \<lparr>lresp_access_token = create_access_token (username usr1) t_token,
                       lresp_token_type = ''bearer''\<rparr>, d1))"

section \<open>Admin endpoints\<close>

text \<open>
  \<^verbatim>\<open>ObjectId(user_id)\<close> of the driver: a string of 24 hexadecimal digits, in either case,
  denotes an identifier; any other string raises \<^verbatim>\<open>InvalidId\<close>. The handlers compare
  \<^verbatim>\<open>str(user.id)\<close> with \<^verbatim>\<open>str(current_admin.id)\<close>, which is equality of the identifiers.
\<close>

definition is_hex_digit :: "char \<Rightarrow> bool" where
  "is_hex_digit c = (c \<in> set ''0123456789abcdefABCDEF'')"

definition hex_digit_val :: "char \<Rightarrow> nat" where
  "hex_digit_val c =
     (let n = (of_char c :: nat)
      in if n \<le> 57 then n - 48 else if n \<le> 70 then n - 55 else n - 87)"

definition ObjectId :: "string \<Rightarrow> object_id option" where
  "ObjectId s =
     (if length s = 24 \<and> list_all is_hex_digit s then
        Some (foldl (\<lambda>v c. 16 * v + hex_digit_val c) 0 s)
      else None)"

text \<open>\<^verbatim>\<open>str(n)\<close> of a length, for the messages.\<close>

fun str_of_nat :: "nat \<Rightarrow> string" where
  "str_of_nat n =
     (if n < 10 then [string_digits ! n]
      else str_of_nat (n div 10) @ [string_digits ! (n mod 10)])"

declare str_of_nat.simps [simp del]

text \<open>The single quote character of the messages.\<close>

definition squote :: string where
  "squote = [CHR 0x27]"

text \<open>
  \<^verbatim>\<open>delete_user\<close>. The caller is the user that \<^verbatim>\<open>get_current_admin\<close> resolved from the
  bearer token.
\<close>

record delete_response =
  dresp_message :: string
  dresp_deleted_user_id :: string

definition delete_user ::
  "db \<Rightarrow> user \<Rightarrow> string \<Rightarrow> string option \<Rightarrow> (http_exception + delete_response) \<times> db" where
  "delete_user d current_admin uid admin_confirmation =
     (case ObjectId uid of
        None \<Rightarrow> (Inl (HTTPException 400 ''Invalid user ID format''), d)
      | Some user_object_id \<Rightarrow>
          (case find_one (\<lambda>u. user_id u = user_object_id) (users d) of
             None \<Rightarrow> (Inl (HTTPException 404 ''User not found''), d)
           | Some usr \<Rightarrow>
               if user_id usr = user_id current_admin then
                 (Inl (HTTPException 400 ''Cannot delete your own account''), d)
               else if is_admin usr \<and>
                       (admin_confirmation = None \<or> admin_confirmation = Some [] \<or>
                        admin_confirmation \<noteq> Some ''DELETE ADMIN'') then
                 (Inl (HTTPException 400
                    (''To delete an admin user, you must provide confirmation: '' @
                     squote @ ''DELETE ADMIN'' @ squote)), d)
               else
                 (Inr \<lparr>dresp_message =
                         ''User '' @ squote @ username usr @ squote @ '' deleted successfully'',
                       dresp_deleted_user_id = uid\<rparr>,
                  d\<lparr>users := delete_one (\<lambda>u. user_id u = user_object_id) (users d)\<rparr>)))"

text \<open>The body of the loop of \<^verbatim>\<open>bulk_delete_users\<close>, for one submitted id.\<close>

definition bulk_delete_step ::
  "user \<Rightarrow> string \<Rightarrow> db \<times> (string \<times> string) list \<times> (string \<times> string) list
     \<Rightarrow> db \<times> (string \<times> string) list \<times> (string \<times> string) list" where
  "bulk_delete_step current_admin uid st =
     (case st of (d, deleted, failed) \<Rightarrow>
        (case ObjectId uid of
           None \<Rightarrow> (d, deleted, failed @ [(uid, ''Invalid user ID format'')])
         | Some user_object_id \<Rightarrow>
             (case find_one (\<lambda>u. user_id u = user_object_id) (users d) of
                None \<Rightarrow> (d, deleted, failed @ [(uid, ''User not found'')])
              | Some usr \<Rightarrow>
                  if user_id usr = user_id current_admin then
                    (d, deleted, failed @ [(uid, ''Cannot delete your own account'')])
                  else if is_admin usr then
                    (d, deleted, failed @ [(uid, ''Cannot delete other admin users'')])
                  else
                    (d\<lparr>users := delete_one (\<lambda>u. user_id u = user_object_id) (users d)\<rparr>,
                     deleted @ [(uid, username usr)], failed))))"

fun bulk_delete_loop ::
  "user \<Rightarrow> string list \<Rightarrow> db \<times> (string \<times> string) list \<times> (string \<times> string) list
     \<Rightarrow> db \<times> (string \<times> string) list \<times> (string \<times> string) list" where
  "bulk_delete_loop current_admin [] st = st"
| "bulk_delete_loop current_admin (uid # rest) st =
     bulk_delete_loop current_admin rest (bulk_delete_step current_admin uid st)"

text \<open>
  \<^verbatim>\<open>bulk_delete_users\<close>. For an empty list the handler raises \<^verbatim>\<open>HTTPException(400)\<close>
  inside its \<^verbatim>\<open>try\<close>, whose only \<^verbatim>\<open>except\<close> clause catches every exception and raises
  status 500. The lists of the report hold pairs: id and username, id and reason.
\<close>

record bulk_delete_response =
  deleted_users :: "(string \<times> string) list"
  failed_deletions :: "(string \<times> string) list"
  total_deleted :: nat
  total_failed :: nat
  bresp_message :: string

definition bulk_delete_users ::
  "db \<Rightarrow> user \<Rightarrow> string list \<Rightarrow> (http_exception + bulk_delete_response) \<times> db" where
  "bulk_delete_users d current_admin user_ids =
     (if user_ids = [] then
        (Inl (HTTPException 500 ''Error in bulk delete operation''), d)
      else
        let (d', deleted, failed) = bulk_delete_loop current_admin user_ids (d, [], [])
        in (Inr \<lparr>deleted_users = deleted, failed_deletions = failed,
                  total_deleted = length deleted, total_failed = length failed,
                  bresp_message =
                    ''Bulk delete completed. '' @ str_of_nat (length deleted) @
                    '' users deleted, '' @ str_of_nat (length failed) @ '' failed.''\<rparr>, d'))"

subsection \<open>Creating users and toggling the admin flag\<close>

text \<open>
  \<^verbatim>\<open>create_admin_user\<close>, \<^verbatim>\<open>create_user\<close> and \<^verbatim>\<open>toggle_admin_status\<close>. The creation time
  of the response is kept as a time, not as its ISO text.
\<close>

record create_admin_response =
  caresp_id :: object_id
  caresp_username :: string
  caresp_is_admin :: bool
  caresp_created_at :: datetime
  caresp_message :: string

definition create_admin_user ::
  "(string \<Rightarrow> string) \<Rightarrow> db \<Rightarrow> user \<Rightarrow> string \<Rightarrow> string \<Rightarrow> datetime
     \<Rightarrow> (http_exception + create_admin_response) \<times> db" where
  "create_admin_user hash_password d current_admin uname password t_created =
     (if find_one (\<lambda>u. username u = uname) (users d) \<noteq> None then
        (Inl (HTTPException 400 ''Username already exists''), d)
      else
        case insert_user d uname (uname @ ''@admin.local'') (hash_password password)
               True t_created True of
          Inl DuplicateKeyError \<Rightarrow> (Inl (HTTPException 400 ''Username already exists''), d)
        | Inr (inserted_id, d1) \<Rightarrow>
            (Inr \<lparr>caresp_id = inserted_id, caresp_username = uname, caresp_is_admin = True,
                  caresp_created_at = t_created,
                  caresp_message =
                    ''Admin user '' @ squote @ uname @ squote @ '' created successfully''\<rparr>,
             d1))"

record create_user_response =
  curesp_id :: object_id
  curesp_username :: string
  curesp_email :: string
  curesp_is_admin :: bool
  curesp_is_verified :: bool
  curesp_created_at :: datetime
  curesp_message :: string

definition create_user ::
  "(string \<Rightarrow> string) \<Rightarrow> db \<Rightarrow> user \<Rightarrow> string \<Rightarrow> string \<Rightarrow> string \<Rightarrow> bool \<Rightarrow> datetime
     \<Rightarrow> (http_exception + create_user_response) \<times> db" where
  "create_user hash_password d current_admin uname mail password admin t_created =
     (if find_one (\<lambda>u. username u = uname) (users d) \<noteq> None then
        (Inl (HTTPException 400 ''Username already exists''), d)
      else if find_one (\<lambda>u. email u = Some mail) (users d) \<noteq> None then
        (Inl (HTTPException 400 ''Email already registered''), d)
      else
        case insert_user d uname mail (hash_password password) True t_created admin of
          Inl DuplicateKeyError \<Rightarrow>
            (Inl (HTTPException 400 ''Username or email already exists''), d)
        | Inr (inserted_id, d1) \<Rightarrow>
            (Inr \<lparr>curesp_id = inserted_id, curesp_username = uname, curesp_email = mail,
                  curesp_is_admin = admin, curesp_is_verified = True,
                  curesp_created_at = t_created,
                  curesp_message =
                    (if admin then ''Admin User'' else ''Regular User'') @ '' '' @ squote @
                    uname @ squote @ '' created successfully''\<rparr>,
             d1))"



section \<open>Document generation: clause hints and stamp estimate\<close>













section \<open>Clients: sequences of requests\<close>

text \<open>A client making one Verify-OTP request after the other for the same email.\<close>

fun verify_otp_seq ::
  "db \<Rightarrow> string \<Rightarrow> (string \<times> datetime) list \<Rightarrow> (http_exception + verify_response) list \<times> db" where
  "verify_otp_seq d mail [] = ([], d)"
| "verify_otp_seq d mail ((code, now) # rest) =
     (let (res, d1) = verify_otp d mail code now;
          (ress, d2) = verify_otp_seq d1 mail rest
      in (res # ress, d2))"

text \<open>
  A client making one Request-OTP call after the other for the same email. Each call is
  served within one reading of the clock.
\<close>

fun send_otp_seq ::
  "db \<Rightarrow> string \<Rightarrow> (datetime \<times> (nat \<Rightarrow> nat) \<times> bool) list
     \<Rightarrow> (http_exception + otp_response) list \<times> db" where
  "send_otp_seq d mail [] = ([], d)"
| "send_otp_seq d mail ((now, rnd, email_sent) # rest) =
     (let (res, d1) = send_otp d mail now now now now rnd email_sent;
          (ress, d2) = send_otp_seq d1 mail rest
      in (res # ress, d2))"



section \<open>Predicates used in the statements\<close>


text \<open>
  A user that bulk delete refuses to delete, and the reason it reports: the caller
  themselves, or another admin.
\<close>

definition protected :: "user \<Rightarrow> user \<Rightarrow> bool" where
  "protected current_admin usr \<longleftrightarrow> is_admin usr \<or> user_id usr = user_id current_admin"

definition failure_reason :: "user \<Rightarrow> user \<Rightarrow> string" where
  "failure_reason current_admin usr =
     (if user_id usr = user_id current_admin then ''Cannot delete your own account''
      else ''Cannot delete other admin users'')"

section \<open>Example stores\<close>

text \<open>A store used in the examples: one outstanding code for one address.\<close>

definition otp_a :: otp where
  "otp_a = \<lparr>otp_id = 0, otp_email = ''a@b.com'', otp_code = ''123456'', is_used = False,
            expires_at = 600000000, otp_created_at = 0\<rparr>"

definition db_one_otp :: db where
  "db_one_otp = \<lparr>users = [], otps = [otp_a], next_oid = 1\<rparr>"

text \<open>The same address with a second code that has already been verified.\<close>

definition otp_used :: otp where
  "otp_used = \<lparr>otp_id = 1, otp_email = ''a@b.com'', otp_code = ''111111'', is_used = True,
               expires_at = 900000000, otp_created_at = 300000000\<rparr>"

definition db_two_otps :: db where
  "db_two_otps = \<lparr>users = [], otps = [otp_a, otp_used], next_oid = 2\<rparr>"

text \<open>A store with one registered, verified user as well.\<close>

definition user_alice :: user where
  "user_alice = \<lparr>user_id = 2, username = ''alice'', email = Some ''alice@x.com'',
                  password_hash = ''h:secret'', is_verified = True, created_at = 5,
                  is_admin = False\<rparr>"

definition db_alice :: db where
  "db_alice = \<lparr>users = [user_alice], otps = [otp_a, otp_used], next_oid = 3\<rparr>"


text \<open>The empty store, and minutes as microseconds.\<close>

definition db_empty :: db where
  "db_empty = \<lparr>users = [], otps = [], next_oid = 0\<rparr>"

definition minutes_us :: "int \<Rightarrow> datetime" where
  "minutes_us m = m * 60000000"

text \<open>A store with two admins and one regular user, and the ids as a client writes them.\<close>

definition user_root :: user where
  "user_root = \<lparr>user_id = 10, username = ''root'', email = Some ''root@admin.local'',
                 password_hash = ''h:toor'', is_verified = True, created_at = 1,
                 is_admin = True\<rparr>"

definition user_carol :: user where
  "user_carol = \<lparr>user_id = 11, username = ''carol'', email = Some ''carol@admin.local'',
                  password_hash = ''h:c'', is_verified = True, created_at = 2,
                  is_admin = True\<rparr>"

definition user_bob :: user where
  "user_bob = \<lparr>user_id = 12, username = ''bob'', email = Some ''bob@x.com'',
                password_hash = ''h:b'', is_verified = True, created_at = 3,
                is_admin = False\<rparr>"

definition db_admins :: db where
  "db_admins = \<lparr>users = [user_root, user_carol, user_bob], otps = [], next_oid = 13\<rparr>"

definition id_root :: string where
  "id_root = ''00000000000000000000000a''"

definition id_carol :: string where
  "id_carol = ''00000000000000000000000B''"

definition id_bob :: string where
  "id_bob = ''00000000000000000000000c''"





section \<open>Facts about the collection operations\<close>

lemma find_one_None_iff: "find_one q docs = None \<longleftrightarrow> (\<forall>x \<in> set docs. \<not> q x)"
  by (auto simp: find_one_def find_None_iff)

lemma find_one_Some_holds: "find_one q docs = Some x \<Longrightarrow> q x \<and> x \<in> set docs"
  by (auto simp: find_one_def find_Some_iff)

lemma delete_one_by_id_remove1:
  "distinct (map otp_id xs) \<Longrightarrow> r \<in> set xs \<Longrightarrow>
     delete_one (\<lambda>x. otp_id x = otp_id r) xs = remove1 r xs"
proof (induction xs)
  case Nil
  then show ?case by simp
next
  case (Cons x xs)
  show ?case
  proof (cases "x = r")
    case True
    then show ?thesis by simp
  next
    case False
    with Cons.prems have rin: "r \<in> set xs" by simp
    with Cons.prems have "otp_id x \<noteq> otp_id r" by force
    with Cons rin False show ?thesis by simp
  qed
qed

lemma find_one_first:
  "find_one q xs = Some r \<Longrightarrow>
     \<exists>before after. xs = before @ r # after \<and> (\<forall>x \<in> set before. \<not> q x)"
proof (induction xs)
  case Nil
  then show ?case by (simp add: find_one_def)
next
  case (Cons a xs)
  show ?case
  proof (cases "q a")
    case True
    with Cons.prems have "a = r" by (simp add: find_one_def)
    then have "a # xs = [] @ r # xs \<and> (\<forall>x \<in> set []. \<not> q x)" by simp
    then show ?thesis by blast
  next
    case False
    with Cons.prems have "find_one q xs = Some r" by (simp add: find_one_def)
    from Cons.IH [OF this] obtain before after
      where "xs = before @ r # after" and "\<forall>x \<in> set before. \<not> q x" by blast
    with False have "a # xs = (a # before) @ r # after \<and> (\<forall>x \<in> set (a # before). \<not> q x)"
      by simp
    then show ?thesis by blast
  qed
qed


lemma find_one_key:
  "distinct (map f xs) \<Longrightarrow> x \<in> set xs \<Longrightarrow> find_one (\<lambda>y. f y = f x) xs = Some x"
proof (induction xs)
  case Nil
  then show ?case by simp
next
  case (Cons a xs)
  show ?case
  proof (cases "a = x")
    case True
    then show ?thesis by (simp add: find_one_def)
  next
    case False
    with Cons.prems have xin: "x \<in> set xs" by simp
    with Cons.prems have "f a \<noteq> f x" by force
    with Cons xin show ?thesis by (simp add: find_one_def)
  qed
qed

lemma delete_one_key:
  "distinct (map f xs) \<Longrightarrow> x \<in> set xs \<Longrightarrow> delete_one (\<lambda>y. f y = f x) xs = remove1 x xs"
proof (induction xs)
  case Nil
  then show ?case by simp
next
  case (Cons a xs)
  show ?case
  proof (cases "a = x")
    case True
    then show ?thesis by simp
  next
    case False
    with Cons.prems have xin: "x \<in> set xs" by simp
    with Cons.prems have "f a \<noteq> f x" by force
    with Cons xin False show ?thesis by simp
  qed
qed

lemma distinct_map_remove1_key:
  "distinct (map f xs) \<Longrightarrow> distinct (map f (remove1 x xs))"
proof (induction xs)
  case Nil
  then show ?case by simp
next
  case (Cons a xs)
  have "set (remove1 x xs) \<subseteq> set xs" by (rule set_remove1_subset)
  with Cons show ?case by auto
qed




section \<open>Verify-OTP\<close>

lemma verify_otp_no_match:
  assumes "\<forall>r \<in> set (otps d). \<not> (otp_email r = mail \<and> otp_code r = code \<and> \<not> is_used r)"
  shows "verify_otp d mail code now = (Inl (HTTPException 400 ''Invalid OTP''), d)"
proof -
  have "find_one (\<lambda>r. otp_email r = mail \<and> otp_code r = code \<and> is_used r = False) (otps d) = None"
    using assms by (simp add: find_one_None_iff)
  then show ?thesis by (simp add: verify_otp_def)
qed

text \<open>
  C2. Any number of Verify-OTP requests for an email, none of whose codes matches an unused
  record of that email, all fail with the same error 400 "Invalid OTP" (whether the code is
  wrong or its record is already used), and the store after them is the store before them,
  so an outstanding unused code is neither consumed nor invalidated.
\<close>

theorem verify_otp_wrong_code_keeps_store:
  assumes "\<forall>(code, now) \<in> set attempts.
             \<forall>r \<in> set (otps d). \<not> (otp_email r = mail \<and> otp_code r = code \<and> \<not> is_used r)"
  shows "verify_otp_seq d mail attempts =
           (replicate (length attempts) (Inl (HTTPException 400 ''Invalid OTP'')), d)"
  using assms
proof (induction attempts)
  case Nil
  then show ?case by simp
next
  case (Cons a attempts)
  obtain code now where a: "a = (code, now)" by (cases a)
  from Cons.prems a
  have "\<forall>r \<in> set (otps d). \<not> (otp_email r = mail \<and> otp_code r = code \<and> \<not> is_used r)"
    by auto
  then have one: "verify_otp d mail code now = (Inl (HTTPException 400 ''Invalid OTP''), d)"
    by (rule verify_otp_no_match)
  from Cons.prems have "\<forall>(code, now) \<in> set attempts.
      \<forall>r \<in> set (otps d). \<not> (otp_email r = mail \<and> otp_code r = code \<and> \<not> is_used r)"
    by auto
  then have "verify_otp_seq d mail attempts =
      (replicate (length attempts) (Inl (HTTPException 400 ''Invalid OTP'')), d)"
    by (rule Cons.IH)
  with one a show ?case by simp
qed

theorem verify_otp_wrong_code_keeps_store_witness:
  "verify_otp_seq db_two_otps ''a@b.com'' [(''000000'', 1), (''111111'', 2), (''000000'', 3)] =
     ([Inl (HTTPException 400 ''Invalid OTP''), Inl (HTTPException 400 ''Invalid OTP''),
       Inl (HTTPException 400 ''Invalid OTP'')], db_two_otps)"
  using verify_otp_wrong_code_keeps_store
    [where attempts = "[(''000000'', 1), (''111111'', 2), (''000000'', 3)]"
       and d = db_two_otps and mail = "''a@b.com''"]
  by (simp add: db_two_otps_def otp_a_def otp_used_def)

text \<open>
  C4 as stated fails at the expiry instant itself. The record \<open>otp_a\<close> expires at
  600000000; a Verify-OTP request with its email and code at exactly that time is accepted
  and marks the record used.
\<close>

theorem verify_otp_at_expiry_instant_accepted:
  "expires_at otp_a = 600000000 \<and>
   verify_otp db_one_otp ''a@b.com'' ''123456'' 600000000 =
     (Inr \<lparr>vresp_message = ''OTP verified successfully'', vresp_email = ''a@b.com'',
           vresp_verified = True\<rparr>,
      db_one_otp\<lparr>otps := [otp_a\<lparr>is_used := True\<rparr>]\<rparr>)"
  by (simp add: verify_otp_def find_one_def is_otp_expired_def db_one_otp_def otp_a_def)

text \<open>
  C4, amended. A Verify-OTP request whose email and code match an unused record fails with
  error 400 "OTP has expired" when the current time is strictly after the expiry instant of
  every unused record with that email and code; the store is unchanged, so the expired
  record is still present.
\<close>

theorem verify_otp_expired_strictly_after:
  assumes "r \<in> set (otps d)" and "otp_email r = mail" and "otp_code r = code"
    and "\<not> is_used r"
    and "\<forall>r' \<in> set (otps d).
           otp_email r' = mail \<and> otp_code r' = code \<and> \<not> is_used r' \<longrightarrow> expires_at r' < now"
  shows "verify_otp d mail code now = (Inl (HTTPException 400 ''OTP has expired''), d) \<and>
         r \<in> set (otps (snd (verify_otp d mail code now)))"
proof -
  let ?q = "\<lambda>r. otp_email r = mail \<and> otp_code r = code \<and> is_used r = False"
  from assms(1-4) have "find_one ?q (otps d) \<noteq> None"
    by (auto simp: find_one_None_iff)
  then obtain r0 where r0: "find_one ?q (otps d) = Some r0" by auto
  then have "?q r0 \<and> r0 \<in> set (otps d)" by (rule find_one_Some_holds)
  with assms(5) have "expires_at r0 < now" by auto
  with r0 have "verify_otp d mail code now = (Inl (HTTPException 400 ''OTP has expired''), d)"
    by (simp add: verify_otp_def is_otp_expired_def)
  with assms(1) show ?thesis by simp
qed

theorem verify_otp_expired_strictly_after_witness:
  "otp_a \<in> set (otps db_one_otp) \<and> expires_at otp_a < 600000001 \<and>
   verify_otp db_one_otp ''a@b.com'' ''123456'' 600000001 =
     (Inl (HTTPException 400 ''OTP has expired''), db_one_otp) \<and>
   otp_a \<in> set (otps (snd (verify_otp db_one_otp ''a@b.com'' ''123456'' 600000001)))"
  using verify_otp_expired_strictly_after
    [where r = otp_a and d = db_one_otp and mail = "''a@b.com''" and code = "''123456''"
       and now = 600000001]
  by (simp add: db_one_otp_def otp_a_def)

section \<open>Complete-Registration\<close>

text \<open>
  C1. Complete-Registration checks its preconditions in order and the first failure wins:
  a taken username gives 400 "Username already exists"; otherwise a taken email gives 400
  "Email already registered"; otherwise, with no used OTP record for the email, 400 "Email
  not verified"; each leaves the store as it was. Otherwise the request succeeds: a user
  with \<open>is_verified = True\<close>, \<open>is_admin = False\<close> and the hashed password is appended, and
  one used OTP record of that email, the first in the order of the store, which is the one
  the check found, is removed from the store (record identifiers being unique, nothing else
  is removed).
\<close>

theorem register_checks_in_order:
  assumes "distinct (map otp_id (otps d))"
  shows
    "((\<exists>u \<in> set (users d). username u = uname) \<longrightarrow>
        register hp d uname mail pw t =
          (Inl (HTTPException 400 ''Username already exists''), d)) \<and>
     (\<not> (\<exists>u \<in> set (users d). username u = uname) \<and>
      (\<exists>u \<in> set (users d). email u = Some mail) \<longrightarrow>
        register hp d uname mail pw t =
          (Inl (HTTPException 400 ''Email already registered''), d)) \<and>
     (\<not> (\<exists>u \<in> set (users d). username u = uname) \<and>
      \<not> (\<exists>u \<in> set (users d). email u = Some mail) \<and>
      \<not> (\<exists>r \<in> set (otps d). otp_email r = mail \<and> is_used r) \<longrightarrow>
        register hp d uname mail pw t =
          (Inl (HTTPException 400
             ''Email not verified. Please verify your email with OTP first.''), d)) \<and>
     (\<not> (\<exists>u \<in> set (users d). username u = uname) \<and>
      \<not> (\<exists>u \<in> set (users d). email u = Some mail) \<and>
      (\<exists>r \<in> set (otps d). otp_email r = mail \<and> is_used r) \<longrightarrow>
        (\<exists>r \<in> set (otps d). otp_email r = mail \<and> is_used r \<and>
           register hp d uname mail pw t =
             (Inr \<lparr>rresp_message = ''User registered successfully'', rresp_id = next_oid d,
                   rresp_username = uname, rresp_email = mail, rresp_is_verified = True\<rparr>,
              d\<lparr>users := users d @
                     [\<lparr>user_id = next_oid d, username = uname, email = Some mail,
                       password_hash = hp pw, is_verified = True, created_at = t,
                       is_admin = False\<rparr>],
                 otps := remove1 r (otps d),
                 next_oid := Suc (next_oid d)\<rparr>) \<and>
           set (remove1 r (otps d)) = set (otps d) - {r} \<and>
           (\<exists>before after. otps d = before @ r # after \<and>
              (\<forall>x \<in> set before. \<not> (otp_email x = mail \<and> is_used x)))))"
proof (intro conjI impI)
  assume "\<exists>u \<in> set (users d). username u = uname"
  then have "find_one (\<lambda>u. username u = uname) (users d) \<noteq> None"
    by (simp add: find_one_None_iff)
  then show "register hp d uname mail pw t =
      (Inl (HTTPException 400 ''Username already exists''), d)"
    by (simp add: register_def)
next
  assume a: "\<not> (\<exists>u \<in> set (users d). username u = uname) \<and>
      (\<exists>u \<in> set (users d). email u = Some mail)"
  then have "find_one (\<lambda>u. username u = uname) (users d) = None"
    and "find_one (\<lambda>u. email u = Some mail) (users d) \<noteq> None"
    by (simp_all add: find_one_None_iff)
  then show "register hp d uname mail pw t =
      (Inl (HTTPException 400 ''Email already registered''), d)"
    by (simp add: register_def)
next
  assume a: "\<not> (\<exists>u \<in> set (users d). username u = uname) \<and>
      \<not> (\<exists>u \<in> set (users d). email u = Some mail) \<and>
      \<not> (\<exists>r \<in> set (otps d). otp_email r = mail \<and> is_used r)"
  then have "find_one (\<lambda>u. username u = uname) (users d) = None"
    and "find_one (\<lambda>u. email u = Some mail) (users d) = None"
    and "find_one (\<lambda>r. otp_email r = mail \<and> is_used r = True) (otps d) = None"
    by (simp_all add: find_one_None_iff)
  then show "register hp d uname mail pw t =
      (Inl (HTTPException 400
         ''Email not verified. Please verify your email with OTP first.''), d)"
    by (simp add: register_def)
next
  assume a: "\<not> (\<exists>u \<in> set (users d). username u = uname) \<and>
      \<not> (\<exists>u \<in> set (users d). email u = Some mail) \<and>
      (\<exists>r \<in> set (otps d). otp_email r = mail \<and> is_used r)"
  then have nu: "find_one (\<lambda>u. username u = uname) (users d) = None"
    and ne: "find_one (\<lambda>u. email u = Some mail) (users d) = None"
    by (simp_all add: find_one_None_iff)
  from a have "find_one (\<lambda>r. otp_email r = mail \<and> is_used r = True) (otps d) \<noteq> None"
    by (simp add: find_one_None_iff)
  then obtain r where r: "find_one (\<lambda>r. otp_email r = mail \<and> is_used r = True) (otps d) = Some r"
    by auto
  then have rin: "r \<in> set (otps d)" and rq: "otp_email r = mail" "is_used r"
    using find_one_Some_holds [OF r] by simp_all
  from a have noclash: "\<not> list_ex (\<lambda>u. username u = uname \<or> email u = Some mail) (users d)"
    by (auto simp: list_ex_iff)
  have del: "delete_one (\<lambda>x. otp_id x = otp_id r) (otps d) = remove1 r (otps d)"
    using assms rin by (rule delete_one_by_id_remove1)
  have "distinct (otps d)" using assms by (rule distinct_map [THEN iffD1, THEN conjunct1])
  then have st: "set (remove1 r (otps d)) = set (otps d) - {r}" by simp
  note rin rq st
  moreover have "register hp d uname mail pw t =
             (Inr \<lparr>rresp_message = ''User registered successfully'', rresp_id = next_oid d,
                   rresp_username = uname, rresp_email = mail, rresp_is_verified = True\<rparr>,
              d\<lparr>users := users d @
                     [\<lparr>user_id = next_oid d, username = uname, email = Some mail,
                       password_hash = hp pw, is_verified = True, created_at = t,
                       is_admin = False\<rparr>],
                 otps := remove1 r (otps d),
                 next_oid := Suc (next_oid d)\<rparr>)"
    using nu ne r noclash del by (simp add: register_def insert_user_def)
  moreover from find_one_first [OF r]
  have "\<exists>before after. otps d = before @ r # after \<and>
      (\<forall>x \<in> set before. \<not> (otp_email x = mail \<and> is_used x))"
    by simp
  ultimately show "\<exists>r \<in> set (otps d). otp_email r = mail \<and> is_used r \<and>
           register hp d uname mail pw t =
             (Inr \<lparr>rresp_message = ''User registered successfully'', rresp_id = next_oid d,
                   rresp_username = uname, rresp_email = mail, rresp_is_verified = True\<rparr>,
              d\<lparr>users := users d @
                     [\<lparr>user_id = next_oid d, username = uname, email = Some mail,
                       password_hash = hp pw, is_verified = True, created_at = t,
                       is_admin = False\<rparr>],
                 otps := remove1 r (otps d),
                 next_oid := Suc (next_oid d)\<rparr>) \<and>
           set (remove1 r (otps d)) = set (otps d) - {r} \<and>
           (\<exists>before after. otps d = before @ r # after \<and>
              (\<forall>x \<in> set before. \<not> (otp_email x = mail \<and> is_used x)))"
    by blast
qed


theorem register_checks_in_order_witness:
  "distinct (map otp_id (otps db_alice)) \<and>
   register (\<lambda>p. ''h:'' @ p) db_alice ''alice'' ''new@x.com'' ''pw'' 7 =
     (Inl (HTTPException 400 ''Username already exists''), db_alice) \<and>
   register (\<lambda>p. ''h:'' @ p) db_alice ''bob'' ''alice@x.com'' ''pw'' 7 =
     (Inl (HTTPException 400 ''Email already registered''), db_alice) \<and>
   register (\<lambda>p. ''h:'' @ p) db_alice ''bob'' ''c@d.com'' ''pw'' 7 =
     (Inl (HTTPException 400
        ''Email not verified. Please verify your email with OTP first.''), db_alice) \<and>
   register (\<lambda>p. ''h:'' @ p) db_alice ''bob'' ''a@b.com'' ''pw'' 7 =
     (Inr \<lparr>rresp_message = ''User registered successfully'', rresp_id = 3,
           rresp_username = ''bob'', rresp_email = ''a@b.com'', rresp_is_verified = True\<rparr>,
      \<lparr>users = [user_alice,
                \<lparr>user_id = 3, username = ''bob'', email = Some ''a@b.com'',
                  password_hash = ''h:pw'', is_verified = True, created_at = 7,
                  is_admin = False\<rparr>],
        otps = [otp_a], next_oid = 4\<rparr>)"
  using register_checks_in_order
      [where d = db_alice and hp = "\<lambda>p. ''h:'' @ p" and uname = "''alice''"
         and mail = "''new@x.com''" and pw = "''pw''" and t = 7]
    register_checks_in_order
      [where d = db_alice and hp = "\<lambda>p. ''h:'' @ p" and uname = "''bob''"
         and mail = "''alice@x.com''" and pw = "''pw''" and t = 7]
    register_checks_in_order
      [where d = db_alice and hp = "\<lambda>p. ''h:'' @ p" and uname = "''bob''"
         and mail = "''c@d.com''" and pw = "''pw''" and t = 7]
    register_checks_in_order
      [where d = db_alice and hp = "\<lambda>p. ''h:'' @ p" and uname = "''bob''"
         and mail = "''a@b.com''" and pw = "''pw''" and t = 7]
  by (simp add: db_alice_def user_alice_def otp_a_def otp_used_def)

section \<open>Login with unknown user or wrong password\<close>

text \<open>
  C7. A login with a username that no user has, and a login with an existing username and a
  password that verification rejects, fail with the same exception, status 401 and detail
  "Invalid credentials", and both leave the store unchanged.
\<close>

theorem login_unknown_user_same_as_wrong_password:
  assumes "\<forall>u \<in> set (users d). username u \<noteq> unknown"
    and "\<exists>u \<in> set (users d). username u = known"
    and "\<forall>u \<in> set (users d). username u = known \<longrightarrow> \<not> vp pw2 (password_hash u)"
  shows "login vp d unknown pw1 t1 = (Inl (HTTPException 401 ''Invalid credentials''), d) \<and>
         login vp d known pw2 t2 = (Inl (HTTPException 401 ''Invalid credentials''), d)"
proof
  from assms(1) have "find_one (\<lambda>u. username u = unknown) (users d) = None"
    by (simp add: find_one_None_iff)
  then show "login vp d unknown pw1 t1 = (Inl (HTTPException 401 ''Invalid credentials''), d)"
    by (simp add: login_def)
next
  from assms(2) have "find_one (\<lambda>u. username u = known) (users d) \<noteq> None"
    by (simp add: find_one_None_iff)
  then obtain u where u: "find_one (\<lambda>u. username u = known) (users d) = Some u" by auto
  from find_one_Some_holds [OF u] assms(3) have "\<not> vp pw2 (password_hash u)" by simp
  with u show "login vp d known pw2 t2 = (Inl (HTTPException 401 ''Invalid credentials''), d)"
    by (simp add: login_def)
qed

theorem login_unknown_user_same_as_wrong_password_witness:
  "login (\<lambda>p h. h = ''h:'' @ p) db_alice ''mallory'' ''secret'' 10 =
     (Inl (HTTPException 401 ''Invalid credentials''), db_alice) \<and>
   login (\<lambda>p h. h = ''h:'' @ p) db_alice ''alice'' ''guess'' 11 =
     (Inl (HTTPException 401 ''Invalid credentials''), db_alice)"
  using login_unknown_user_same_as_wrong_password
      [where d = db_alice and vp = "\<lambda>p h. h = ''h:'' @ p" and unknown = "''mallory''"
         and known = "''alice''" and ?pw1.0 = "''secret''" and ?pw2.0 = "''guess''"
         and ?t1.0 = 10 and ?t2.0 = 11]
  by (simp add: db_alice_def user_alice_def)


section \<open>Resend-OTP\<close>









section \<open>Request-OTP\<close>

text \<open>
  C3. The rate limit counts the OTP records of the email that are in the store and were
  created in the last hour, and every successful Request-OTP sweeps the records that
  expired, ten minutes after their creation. So six requests for one email at minutes 0,
  11, 22, 33, 44 and 55 of one hour all succeed: none is answered with 429.
\<close>

theorem send_otp_six_spaced_requests_all_succeed:
  "map isl (fst (send_otp_seq db_empty ''a@b.com''
     [(minutes_us 0, \<lambda>i. i, False), (minutes_us 11, \<lambda>i. i, False),
      (minutes_us 22, \<lambda>i. i, False), (minutes_us 33, \<lambda>i. i, False),
      (minutes_us 44, \<lambda>i. i, False), (minutes_us 55, \<lambda>i. i, False)])) =
   [False, False, False, False, False, False]"
  by (simp add: db_empty_def minutes_us_def send_otp_def count_documents_def find_one_def
      cleanup_expired_otps_def delete_many_def insert_otp_def timedelta_hours_def
      timedelta_minutes_def Let_def)

text \<open>
  After requests at minutes 0, 51, 52, 53, 54 and 55, all of which succeed, a seventh request
  at minute 61 is answered with 429.
\<close>

lemma send_otp_seventh_request_rate_limited:
  "map isl (fst (send_otp_seq db_empty ''a@b.com''
     [(minutes_us 0, \<lambda>i. i, False), (minutes_us 51, \<lambda>i. i, False),
      (minutes_us 52, \<lambda>i. i, False), (minutes_us 53, \<lambda>i. i, False),
      (minutes_us 54, \<lambda>i. i, False), (minutes_us 55, \<lambda>i. i, False),
      (minutes_us 61, \<lambda>i. i, False)])) =
   [False, False, False, False, False, False, True]"
  by (simp add: db_empty_def minutes_us_def send_otp_def count_documents_def find_one_def
      cleanup_expired_otps_def delete_many_def insert_otp_def timedelta_hours_def
      timedelta_minutes_def Let_def)

text \<open>
  When no sweep removes a record in between, the limit holds: of requests at minutes 0 to 5
  the sixth is answered with 429, and a seventh at minute 61 succeeds.
\<close>

lemma send_otp_six_fast_requests_rate_limited:
  "map isl (fst (send_otp_seq db_empty ''a@b.com''
     [(minutes_us 0, \<lambda>i. i, False), (minutes_us 1, \<lambda>i. i, False),
      (minutes_us 2, \<lambda>i. i, False), (minutes_us 3, \<lambda>i. i, False),
      (minutes_us 4, \<lambda>i. i, False), (minutes_us 5, \<lambda>i. i, False),
      (minutes_us 61, \<lambda>i. i, False)])) =
   [False, False, False, False, False, True, False]"
  by (simp add: db_empty_def minutes_us_def send_otp_def count_documents_def find_one_def
      cleanup_expired_otps_def delete_many_def insert_otp_def timedelta_hours_def
      timedelta_minutes_def Let_def)


section \<open>Deleting users\<close>

lemma ObjectId_examples:
  "ObjectId id_root = Some 10" "ObjectId id_carol = Some 11" "ObjectId id_bob = Some 12"
  "ObjectId ''xyz'' = None"
  by code_simp+

lemma str_of_nat_small: "n < 10 \<Longrightarrow> str_of_nat n = [string_digits ! n]"
  by (simp add: str_of_nat.simps)

text \<open>
  C8. For a Delete-User request whose id denotes an existing user (identifiers being
  unique): when that user is the caller, the request fails with 400 "Cannot delete your own
  account", whatever the confirmation and whoever is admin; when it is another user who is
  an admin, the request fails with 400 unless the confirmation is exactly "DELETE ADMIN";
  when it is another admin with that confirmation, or another user who is not an admin with
  any or no confirmation, the request succeeds and exactly that user is removed. A failed
  request leaves the store unchanged.
\<close>

theorem delete_user_rules:
  assumes "distinct (map user_id (users d))" and "usr \<in> set (users d)"
    and "ObjectId uid = Some (user_id usr)"
  shows
    "(user_id usr = user_id current_admin \<longrightarrow>
        delete_user d current_admin uid conf =
          (Inl (HTTPException 400 ''Cannot delete your own account''), d)) \<and>
     (user_id usr \<noteq> user_id current_admin \<and> is_admin usr \<and> conf \<noteq> Some ''DELETE ADMIN'' \<longrightarrow>
        delete_user d current_admin uid conf =
          (Inl (HTTPException 400
             (''To delete an admin user, you must provide confirmation: '' @
              squote @ ''DELETE ADMIN'' @ squote)), d)) \<and>
     (user_id usr \<noteq> user_id current_admin \<and>
      (\<not> is_admin usr \<or> conf = Some ''DELETE ADMIN'') \<longrightarrow>
        delete_user d current_admin uid conf =
          (Inr \<lparr>dresp_message =
                  ''User '' @ squote @ username usr @ squote @ '' deleted successfully'',
                dresp_deleted_user_id = uid\<rparr>,
           d\<lparr>users := remove1 usr (users d)\<rparr>) \<and>
        usr \<notin> set (remove1 usr (users d)))"
proof -
  have f: "find_one (\<lambda>u. user_id u = user_id usr) (users d) = Some usr"
    using assms(1,2) by (rule find_one_key)
  have del: "delete_one (\<lambda>u. user_id u = user_id usr) (users d) = remove1 usr (users d)"
    using assms(1,2) by (rule delete_one_key)
  have "distinct (users d)" using assms(1) by (rule distinct_map [THEN iffD1, THEN conjunct1])
  then have gone: "usr \<notin> set (remove1 usr (users d))" by simp
  show ?thesis
    using f del gone assms(3) by (auto simp: delete_user_def)
qed


theorem delete_user_rules_witness:
  "distinct (map user_id (users db_admins)) \<and>
   delete_user db_admins user_root id_root (Some ''DELETE ADMIN'') =
     (Inl (HTTPException 400 ''Cannot delete your own account''), db_admins) \<and>
   delete_user db_admins user_root id_carol None =
     (Inl (HTTPException 400
        (''To delete an admin user, you must provide confirmation: '' @
         squote @ ''DELETE ADMIN'' @ squote)), db_admins) \<and>
   delete_user db_admins user_root id_carol (Some ''delete admin'') =
     (Inl (HTTPException 400
        (''To delete an admin user, you must provide confirmation: '' @
         squote @ ''DELETE ADMIN'' @ squote)), db_admins) \<and>
   delete_user db_admins user_root id_carol (Some ''DELETE ADMIN'') =
     (Inr \<lparr>dresp_message = ''User '' @ squote @ ''carol'' @ squote @ '' deleted successfully'',
           dresp_deleted_user_id = id_carol\<rparr>,
      db_admins\<lparr>users := [user_root, user_bob]\<rparr>) \<and>
   delete_user db_admins user_root id_bob None =
     (Inr \<lparr>dresp_message = ''User '' @ squote @ ''bob'' @ squote @ '' deleted successfully'',
           dresp_deleted_user_id = id_bob\<rparr>,
      db_admins\<lparr>users := [user_root, user_carol]\<rparr>)"
  using delete_user_rules
      [where d = db_admins and usr = user_root and uid = id_root
         and current_admin = user_root and conf = "Some ''DELETE ADMIN''"]
    delete_user_rules
      [where d = db_admins and usr = user_carol and uid = id_carol
         and current_admin = user_root and conf = None]
    delete_user_rules
      [where d = db_admins and usr = user_carol and uid = id_carol
         and current_admin = user_root and conf = "Some ''delete admin''"]
    delete_user_rules
      [where d = db_admins and usr = user_carol and uid = id_carol
         and current_admin = user_root and conf = "Some ''DELETE ADMIN''"]
    delete_user_rules
      [where d = db_admins and usr = user_bob and uid = id_bob
         and current_admin = user_root and conf = None]
  by (simp add: ObjectId_examples db_admins_def user_root_def user_carol_def user_bob_def)

section \<open>Bulk delete\<close>

lemma bulk_delete_step_shape:
  assumes "distinct (map user_id (users d))"
    and "bulk_delete_step adm uid (d, del, fl) = (d1, del1, fl1)"
  shows "users d1 = users d \<or>
         (\<exists>found. found \<in> set (users d) \<and> \<not> protected adm found \<and>
            ObjectId uid = Some (user_id found) \<and> (uid, username found) \<in> set del1 \<and>
            users d1 = remove1 found (users d))"
proof (cases "ObjectId uid")
  case None
  with assms(2) show ?thesis by (simp add: bulk_delete_step_def)
next
  case (Some oid)
  show ?thesis
  proof (cases "find_one (\<lambda>u. user_id u = oid) (users d)")
    case None
    with Some assms(2) show ?thesis by (simp add: bulk_delete_step_def)
  next
    case (Some found)
    from find_one_Some_holds [OF Some] have fid: "user_id found = oid"
      and fin: "found \<in> set (users d)" by simp_all
    have del: "delete_one (\<lambda>u. user_id u = oid) (users d) = remove1 found (users d)"
      using delete_one_key [OF assms(1) fin] fid by simp
    show ?thesis
    proof (cases "protected adm found")
      case True
      with Some \<open>ObjectId uid = Some oid\<close> assms(2) have "users d1 = users d"
        by (auto simp: bulk_delete_step_def protected_def split: if_splits)
      then show ?thesis by simp
    next
      case False
      with Some \<open>ObjectId uid = Some oid\<close> assms(2) del
      have "users d1 = remove1 found (users d)" and "(uid, username found) \<in> set del1"
        by (auto simp: bulk_delete_step_def protected_def split: if_splits)
      with False fin fid \<open>ObjectId uid = Some oid\<close> show ?thesis by blast
    qed
  qed
qed

lemma bulk_delete_step_frame:
  assumes "distinct (map user_id (users d))"
    and "bulk_delete_step adm uid (d, del, fl) = (d1, del1, fl1)"
  shows "distinct (map user_id (users d1))" and "set (users d1) \<subseteq> set (users d)"
    and "set del \<subseteq> set del1" and "set fl \<subseteq> set fl1"
    and "\<forall>usr \<in> set (users d). protected adm usr \<longrightarrow> usr \<in> set (users d1)"
proof -
  note shape = bulk_delete_step_shape [OF assms]
  from shape assms(1) show "distinct (map user_id (users d1))"
    by (auto simp: distinct_map_remove1_key)
  from shape show "set (users d1) \<subseteq> set (users d)"
    using set_remove1_subset by fastforce
  show "set del \<subseteq> set del1" and "set fl \<subseteq> set fl1"
    using assms(2) by (auto simp: bulk_delete_step_def split: option.splits if_splits)
  show "\<forall>usr \<in> set (users d). protected adm usr \<longrightarrow> usr \<in> set (users d1)"
  proof (intro ballI impI)
    fix usr assume u: "usr \<in> set (users d)" and p: "protected adm usr"
    from shape show "usr \<in> set (users d1)"
    proof
      assume "users d1 = users d"
      with u show ?thesis by simp
    next
      assume "\<exists>found. found \<in> set (users d) \<and> \<not> protected adm found \<and>
            ObjectId uid = Some (user_id found) \<and> (uid, username found) \<in> set del1 \<and>
            users d1 = remove1 found (users d)"
      then obtain found where "\<not> protected adm found"
        and "users d1 = remove1 found (users d)" by blast
      moreover from this p have "found \<noteq> usr" by auto
      ultimately show ?thesis using u by simp
    qed
  qed
qed

lemma bulk_delete_step_target:
  assumes "distinct (map user_id (users d))" and "usr \<in> set (users d)"
    and "ObjectId uid = Some (user_id usr)"
    and "bulk_delete_step adm uid (d, del, fl) = (d1, del1, fl1)"
  shows "if protected adm usr then (uid, failure_reason adm usr) \<in> set fl1
         else usr \<notin> set (users d1) \<and> (uid, username usr) \<in> set del1"
proof -
  have f: "find_one (\<lambda>u. user_id u = user_id usr) (users d) = Some usr"
    using assms(1,2) by (rule find_one_key)
  have del: "delete_one (\<lambda>u. user_id u = user_id usr) (users d) = remove1 usr (users d)"
    using assms(1,2) by (rule delete_one_key)
  have "distinct (users d)" using assms(1) by (rule distinct_map [THEN iffD1, THEN conjunct1])
  then have gone: "usr \<notin> set (remove1 usr (users d))" by simp
  show ?thesis
    using f del gone assms(3,4)
    by (auto simp: bulk_delete_step_def protected_def failure_reason_def)
qed

lemma bulk_delete_loop_frame:
  assumes "distinct (map user_id (users d))"
    and "bulk_delete_loop adm ids (d, del, fl) = (d', del', fl')"
  shows "set (users d') \<subseteq> set (users d) \<and> set del \<subseteq> set del' \<and> set fl \<subseteq> set fl' \<and>
         (\<forall>usr \<in> set (users d). protected adm usr \<longrightarrow> usr \<in> set (users d'))"
  using assms
proof (induction ids arbitrary: d del fl)
  case Nil
  then show ?case by simp
next
  case (Cons uid rest)
  obtain d1 del1 fl1 where st: "bulk_delete_step adm uid (d, del, fl) = (d1, del1, fl1)"
    by (cases "bulk_delete_step adm uid (d, del, fl)") auto
  note fr = bulk_delete_step_frame [OF Cons.prems(1) st]
  from Cons.prems(2) st have "bulk_delete_loop adm rest (d1, del1, fl1) = (d', del', fl')"
    by simp
  from Cons.IH [OF fr(1) this] fr(2-5) show ?case by blast
qed

lemma bulk_delete_loop_targets:
  assumes "distinct (map user_id (users d))"
    and "bulk_delete_loop adm ids (d, del, fl) = (d', del', fl')"
    and "uid \<in> set ids" and "usr \<in> set (users d)" and "ObjectId uid = Some (user_id usr)"
  shows "if protected adm usr
         then usr \<in> set (users d') \<and> (uid, failure_reason adm usr) \<in> set fl'
         else usr \<notin> set (users d') \<and>
              (\<exists>uid' \<in> set ids. ObjectId uid' = Some (user_id usr) \<and>
                 (uid', username usr) \<in> set del')"
  using assms
proof (induction ids arbitrary: d del fl)
  case Nil
  then show ?case by simp
next
  case (Cons a rest)
  obtain d1 del1 fl1 where st: "bulk_delete_step adm a (d, del, fl) = (d1, del1, fl1)"
    by (cases "bulk_delete_step adm a (d, del, fl)") auto
  note fr = bulk_delete_step_frame [OF Cons.prems(1) st]
  from Cons.prems(2) st have loop: "bulk_delete_loop adm rest (d1, del1, fl1) = (d', del', fl')"
    by simp
  note lf = bulk_delete_loop_frame [OF fr(1) loop]
  show ?case
  proof (cases "protected adm usr")
    case True
    with fr(5) Cons.prems(4) have in1: "usr \<in> set (users d1)" by blast
    with lf True have in': "usr \<in> set (users d')" by blast
    have "(uid, failure_reason adm usr) \<in> set fl'"
    proof (cases "uid = a")
      case True
      with bulk_delete_step_target [OF Cons.prems(1,4) _ st] Cons.prems(5) \<open>protected adm usr\<close>
      have "(uid, failure_reason adm usr) \<in> set fl1" by simp
      with lf show ?thesis by blast
    next
      case False
      with Cons.prems(3) have "uid \<in> set rest" by simp
      from Cons.IH [OF fr(1) loop this in1 Cons.prems(5)] \<open>protected adm usr\<close>
      show ?thesis by simp
    qed
    with True in' show ?thesis by simp
  next
    case False
    show ?thesis
    proof (cases "usr \<in> set (users d1)")
      case True
      have "uid \<noteq> a"
      proof
        assume "uid = a"
        with bulk_delete_step_target [OF Cons.prems(1,4) _ st] Cons.prems(5) False
        have "usr \<notin> set (users d1)" by simp
        with True show False by simp
      qed
      with Cons.prems(3) have "uid \<in> set rest" by simp
      from Cons.IH [OF fr(1) loop this True Cons.prems(5)] False
      show ?thesis by auto
    next
      case gone: False
      with lf have out: "usr \<notin> set (users d')" by blast
      from gone Cons.prems(4) have changed: "users d1 \<noteq> users d" by auto
      with bulk_delete_step_shape [OF Cons.prems(1) st]
      obtain found where fin: "found \<in> set (users d)"
        and oid: "ObjectId a = Some (user_id found)"
        and del1: "(a, username found) \<in> set del1"
        and d1: "users d1 = remove1 found (users d)" by blast
      from d1 gone Cons.prems(4) have "found = usr" by (metis in_set_remove1)
      with oid del1 have "ObjectId a = Some (user_id usr)" and "(a, username usr) \<in> set del1"
        by auto
      with lf have "ObjectId a = Some (user_id usr) \<and> (a, username usr) \<in> set del'" by blast
      with out False show ?thesis by auto
    qed
  qed
qed

text \<open>
  C10. A bulk-delete request with a non-empty list (user identifiers being unique) returns
  a report. For every submitted id that denotes a user of the store: if the user is an
  admin or the caller, the user is still in the store afterwards and the id is in
  \<^verbatim>\<open>failed_deletions\<close> with its reason (the handler takes no confirmation parameter at all);
  otherwise the user is no longer in the store and is in \<^verbatim>\<open>deleted_users\<close> with the
  username, under the submitted id that denoted the user first.
\<close>

theorem bulk_delete_spares_admins_and_self:
  assumes "distinct (map user_id (users d))" and "user_ids \<noteq> []"
  shows "\<exists>resp d'.
     bulk_delete_users d current_admin user_ids = (Inr resp, d') \<and>
     (\<forall>uid \<in> set user_ids. \<forall>usr \<in> set (users d). ObjectId uid = Some (user_id usr) \<longrightarrow>
        (if is_admin usr \<or> user_id usr = user_id current_admin
         then usr \<in> set (users d') \<and>
              (uid, if user_id usr = user_id current_admin
                    then ''Cannot delete your own account''
                    else ''Cannot delete other admin users'') \<in> set (failed_deletions resp)
         else usr \<notin> set (users d') \<and>
              (\<exists>uid' \<in> set user_ids. ObjectId uid' = Some (user_id usr) \<and>
                 (uid', username usr) \<in> set (deleted_users resp))))"
proof -
  obtain d' del' fl' where loop:
    "bulk_delete_loop current_admin user_ids (d, [], []) = (d', del', fl')"
    by (cases "bulk_delete_loop current_admin user_ids (d, [], [])") auto
  define resp where "resp = \<lparr>deleted_users = del', failed_deletions = fl',
                  total_deleted = length del', total_failed = length fl',
                  bresp_message =
                    ''Bulk delete completed. '' @ str_of_nat (length del') @
                    '' users deleted, '' @ str_of_nat (length fl') @ '' failed.''\<rparr>"
  have sel: "failed_deletions resp = fl'" "deleted_users resp = del'"
    by (simp_all add: resp_def)
  have res: "bulk_delete_users d current_admin user_ids = (Inr resp, d')"
    using assms(2) loop by (simp add: bulk_delete_users_def resp_def)
  have "\<forall>uid \<in> set user_ids. \<forall>usr \<in> set (users d). ObjectId uid = Some (user_id usr) \<longrightarrow>
        (if is_admin usr \<or> user_id usr = user_id current_admin
         then usr \<in> set (users d') \<and>
              (uid, if user_id usr = user_id current_admin
                    then ''Cannot delete your own account''
                    else ''Cannot delete other admin users'') \<in> set (failed_deletions resp)
         else usr \<notin> set (users d') \<and>
              (\<exists>uid' \<in> set user_ids. ObjectId uid' = Some (user_id usr) \<and>
                 (uid', username usr) \<in> set (deleted_users resp)))"
    unfolding sel
  proof (intro ballI impI)
    fix uid usr
    assume "uid \<in> set user_ids" and "usr \<in> set (users d)"
      and "ObjectId uid = Some (user_id usr)"
    then show "if is_admin usr \<or> user_id usr = user_id current_admin
         then usr \<in> set (users d') \<and>
              (uid, if user_id usr = user_id current_admin
                    then ''Cannot delete your own account''
                    else ''Cannot delete other admin users'') \<in> set fl'
         else usr \<notin> set (users d') \<and>
              (\<exists>uid' \<in> set user_ids. ObjectId uid' = Some (user_id usr) \<and>
                 (uid', username usr) \<in> set del')"
      by (rule bulk_delete_loop_targets
          [OF assms(1) loop, unfolded protected_def failure_reason_def])
  qed
  with res show ?thesis by blast
qed


theorem bulk_delete_spares_admins_and_self_witness:
  "distinct (map user_id (users db_admins)) \<and>
   bulk_delete_users db_admins user_root [id_bob, id_root, id_carol, ''xyz'', id_bob] =
     (Inr \<lparr>deleted_users = [(id_bob, ''bob'')],
           failed_deletions =
             [(id_root, ''Cannot delete your own account''),
              (id_carol, ''Cannot delete other admin users''),
              (''xyz'', ''Invalid user ID format''),
              (id_bob, ''User not found'')],
           total_deleted = 1, total_failed = 4,
           bresp_message = ''Bulk delete completed. 1 users deleted, 4 failed.''\<rparr>,
      db_admins\<lparr>users := [user_root, user_carol]\<rparr>)"
  using bulk_delete_spares_admins_and_self
      [where d = db_admins and current_admin = user_root
         and user_ids = "[id_bob, id_root, id_carol, ''xyz'', id_bob]"]
  by (simp add: bulk_delete_users_def bulk_delete_step_def find_one_def ObjectId_examples
      str_of_nat_small string_digits_def
      db_admins_def user_root_def user_carol_def user_bob_def)


section \<open>Clause hints and stamp estimate\<close>














section \<open>Login of unverified users\<close>













lemma users_create_admin_user:
  "users (snd (create_admin_user hp d adm uname pw t)) = users d \<or>
   (\<exists>new. users (snd (create_admin_user hp d adm uname pw t)) = users d @ [new] \<and>
      user_id new = next_oid d)"
  by (auto simp: create_admin_user_def insert_user_def split: sum.splits)

lemma users_create_user:
  "users (snd (create_user hp d adm uname mail pw admin t)) = users d \<or>
   (\<exists>new. users (snd (create_user hp d adm uname mail pw admin t)) = users d @ [new] \<and>
      user_id new = next_oid d)"
  by (auto simp: create_user_def insert_user_def split: sum.splits)





end
